theory Spec2Isabelle
  imports Complex_Main "HOL-Library.Sublist"
begin

section \<open>Values exchanged with the external model\<close>

text \<open>
  The handler \<^verbatim>\<open>process_image\<close> of \<^verbatim>\<open>app.py\<close> works on the Python values that
  \<^verbatim>\<open>json.loads\<close> produces: \<^verbatim>\<open>None\<close>, \<^verbatim>\<open>bool\<close>, \<^verbatim>\<open>int\<close> (unbounded), \<^verbatim>\<open>float\<close>,
  \<^verbatim>\<open>str\<close>, \<^verbatim>\<open>list\<close> and \<^verbatim>\<open>dict\<close>. A finite double is represented by the rational
  number it denotes; the three non-finite doubles are separate constructors. A \<^verbatim>\<open>dict\<close>
  is an association list in insertion order. Text is a list of characters, each a code
  point below 256.
\<close>

datatype pyfloat = Finite rat | PosInf | NegInf | NaN

datatype json =
    JNull
  | JBool bool
  | JInt int
  | JFloat pyfloat
  | JStr string
  | JArr "json list"
  | JObj "(string \<times> json) list"

text \<open>The exceptions that occur in the handler.\<close>

datatype exn =
    ValueError
  | TypeError
  | OverflowError
  | AttributeError
  | JSONDecodeError
  | OtherError string

subsection \<open>Dictionary access\<close>

text \<open>\<^verbatim>\<open>d.get(k, default)\<close>\<close>

definition dict_get :: "(string \<times> json) list \<Rightarrow> string \<Rightarrow> json \<Rightarrow> json" where
  "dict_get kvs k d = (case map_of kvs k of None \<Rightarrow> d | Some v \<Rightarrow> v)"

text \<open>\<^verbatim>\<open>d[k] = v\<close>: an existing key keeps its position, a new key is added at the end.\<close>

fun dict_set :: "string \<Rightarrow> json \<Rightarrow> (string \<times> json) list \<Rightarrow> (string \<times> json) list" where
  "dict_set k v [] = [(k, v)]"
| "dict_set k v ((k', v') # kvs) =
     (if k' = k then (k, v) # kvs else (k', v') # dict_set k v kvs)"

subsection \<open>Truth value of an object, and \<^verbatim>\<open>or\<close>\<close>

fun truthy :: "json \<Rightarrow> bool" where
  "truthy JNull = False"
| "truthy (JBool b) = b"
| "truthy (JInt n) = (n \<noteq> 0)"
| "truthy (JFloat (Finite q)) = (q \<noteq> 0)"
| "truthy (JFloat PosInf) = True"
| "truthy (JFloat NegInf) = True"
| "truthy (JFloat NaN) = True"
| "truthy (JStr s) = (s \<noteq> [])"
| "truthy (JArr xs) = (xs \<noteq> [])"
| "truthy (JObj kvs) = (kvs \<noteq> [])"

text \<open>\<^verbatim>\<open>x or d\<close>\<close>

definition py_or :: "json \<Rightarrow> json \<Rightarrow> json" where
  "py_or x d = (if truthy x then x else d)"

subsection \<open>The built-in \<^verbatim>\<open>int()\<close>\<close>

text \<open>
  On a string, \<^verbatim>\<open>int()\<close> skips surrounding whitespace (the ASCII whitespace characters
  and, beyond ASCII, the Unicode ones: below 256 these are U+0085 and U+00A0), reads an
  optional sign and then decimal digits, where single underscores may separate digits.
  Anything else raises \<^verbatim>\<open>ValueError\<close>. The interpreter's configurable limit on the
  number of digits is not part of this model.
\<close>

definition int_isspace :: "char \<Rightarrow> bool" where
  "int_isspace c =
     (let n = (of_char c :: nat) in (9 \<le> n \<and> n \<le> 13) \<or> n = 32 \<or> n = 133 \<or> n = 160)"

definition is_digit :: "char \<Rightarrow> bool" where
  "is_digit c = (let n = (of_char c :: nat) in 48 \<le> n \<and> n \<le> 57)"

definition digit_val :: "char \<Rightarrow> nat" where
  "digit_val c = of_char c - 48"

text \<open>
  \<open>int_body pd acc s\<close> reads the digits of \<open>s\<close>; \<open>pd\<close> tells whether the previous
  character was a digit, which is what an underscore and the end of the text need.
\<close>

fun int_body :: "bool \<Rightarrow> nat \<Rightarrow> string \<Rightarrow> nat option" where
  "int_body pd acc [] = (if pd then Some acc else None)"
| "int_body pd acc (c # cs) =
     (if is_digit c then int_body True (10 * acc + digit_val c) cs
      else if c = CHR ''_'' \<and> pd then int_body False acc cs
      else None)"

definition int_of_str :: "string \<Rightarrow> int option" where
  "int_of_str s =
     (let t = rev (dropWhile int_isspace (rev (dropWhile int_isspace s)))
      in case t of
           [] \<Rightarrow> None
         | c # cs \<Rightarrow>
             if c = CHR ''-'' then map_option (\<lambda>n. - int n) (int_body False 0 cs)
             else if c = CHR ''+'' then map_option int (int_body False 0 cs)
             else map_option int (int_body False 0 (c # cs)))"

text \<open>
  \<^verbatim>\<open>int(x)\<close> for a value \<open>x\<close> that \<^verbatim>\<open>json.loads\<close> can produce. A float is truncated
  towards zero; \<^verbatim>\<open>nan\<close> raises \<^verbatim>\<open>ValueError\<close> and an infinity raises
  \<^verbatim>\<open>OverflowError\<close>; \<^verbatim>\<open>None\<close>, lists and dicts raise \<^verbatim>\<open>TypeError\<close>.
\<close>

fun int_py :: "json \<Rightarrow> exn + int" where
  "int_py JNull = Inl TypeError"
| "int_py (JBool b) = Inr (if b then 1 else 0)"
| "int_py (JInt n) = Inr n"
| "int_py (JFloat (Finite q)) = Inr (if 0 \<le> q then \<lfloor>q\<rfloor> else \<lceil>q\<rceil>)"
| "int_py (JFloat PosInf) = Inl OverflowError"
| "int_py (JFloat NegInf) = Inl OverflowError"
| "int_py (JFloat NaN) = Inl ValueError"
| "int_py (JStr s) = (case int_of_str s of None \<Rightarrow> Inl ValueError | Some n \<Rightarrow> Inr n)"
| "int_py (JArr xs) = Inl TypeError"
| "int_py (JObj kvs) = Inl TypeError"

section \<open>The normalization loop (lines 133 to 150)\<close>

text \<open>
  \<^verbatim>\<open>
  try:
      item['duration'] = int(item.get('duration', -1))
  except (ValueError, TypeError):
      item['duration'] = -1
  \<close>
  The value stored under \<^verbatim>\<open>duration\<close>, or the exception that leaves the block.
\<close>

definition coerce_duration :: "json \<Rightarrow> exn + int" where
  "coerce_duration v =
     (case int_py v of
        Inr n \<Rightarrow> Inr n
      | Inl e \<Rightarrow> if e = ValueError \<or> e = TypeError then Inr (- 1) else Inl e)"

text \<open>The four assignments \<^verbatim>\<open>item[k] = item.get(k, d) or d\<close>.\<close>

definition set_default :: "string \<Rightarrow> json \<Rightarrow> (string \<times> json) list \<Rightarrow> (string \<times> json) list" where
  "set_default k d kvs = dict_set k (py_or (dict_get kvs k d) d) kvs"

text \<open>
  One iteration of the loop body. Only a \<^verbatim>\<open>dict\<close> has the method \<^verbatim>\<open>get\<close>: on any other
  element the first statement raises \<^verbatim>\<open>AttributeError\<close>. An exception leaves the body
  before the first assignment, so the element is then unchanged.
\<close>

fun normalize_item :: "json \<Rightarrow> exn + json" where
  "normalize_item (JObj kvs) =
     (case coerce_duration (dict_get kvs ''duration'' (JInt (- 1))) of
        Inl e \<Rightarrow> Inl e
      | Inr n \<Rightarrow>
          Inr (JObj (set_default ''name'' (JStr '''')
                    (set_default ''quantity'' (JStr '''')
                    (set_default ''frequency'' (JStr '''')
                    (set_default ''meal'' (JStr ''anytime'')
                    (dict_set ''duration'' (JInt n) kvs)))))))"
| "normalize_item v = Inl AttributeError"

text \<open>
  The loop \<^verbatim>\<open>for item in medicine_details\<close> mutates the elements in place. The model
  returns the contents of the list when the loop ends, together with the exception that
  ended it, if any: the elements before the failing one are normalized, the failing
  one and those after it are untouched.
\<close>

fun norm_loop :: "json list \<Rightarrow> json list \<times> exn option" where
  "norm_loop [] = ([], None)"
| "norm_loop (x # xs) =
     (case normalize_item x of
        Inl e \<Rightarrow> (x # xs, Some e)
      | Inr y \<Rightarrow> (case norm_loop xs of (ys, r) \<Rightarrow> (y # ys, r)))"

section \<open>Text operations of \<^verbatim>\<open>str\<close>\<close>

text \<open>\<^verbatim>\<open>str.isspace\<close> on one character, for code points below 256.\<close>

definition py_isspace :: "char \<Rightarrow> bool" where
  "py_isspace c =
     (let n = (of_char c :: nat)
      in (9 \<le> n \<and> n \<le> 13) \<or> (28 \<le> n \<and> n \<le> 32) \<or> n = 133 \<or> n = 160)"

text \<open>\<^verbatim>\<open>s.strip()\<close>\<close>

definition strip_py :: "string \<Rightarrow> string" where
  "strip_py s = rev (dropWhile py_isspace (rev (dropWhile py_isspace s)))"

text \<open>
  \<^verbatim>\<open>s.replace(old, new, count)\<close>: the occurrences of \<open>old\<close> are found from left to
  right without overlap, and the first \<open>count\<close> of them are replaced; a negative
  \<open>count\<close> (the default is \<open>-1\<close>) replaces all of them. The text is scanned once: what a
  replacement produces is not scanned again. An empty \<open>old\<close> matches before every
  character and at the end.
\<close>

function (sequential) replace_py :: "string \<Rightarrow> string \<Rightarrow> int \<Rightarrow> string \<Rightarrow> string" where
  "replace_py old new count [] = (if count \<noteq> 0 \<and> old = [] then new else [])"
| "replace_py old new count (c # cs) =
     (if count = 0 then c # cs
      else if old = [] then new @ c # replace_py old new (count - 1) cs
      else if prefix old (c # cs)
        then new @ replace_py old new (count - 1) (drop (length old) (c # cs))
      else c # replace_py old new count cs)"
  by pat_completeness auto
termination
  by (relation "measure (\<lambda>(old, new, count, s). length s)") auto

section \<open>Cleaning the model's reply (lines 104 to 111)\<close>

text \<open>
  \<^verbatim>\<open>
  if gemini_response_text.startswith("```json"):
      gemini_response_text = gemini_response_text.replace("```json", "", 1).strip()
  if gemini_response_text.endswith("```"):
      gemini_response_text = gemini_response_text[:-3].strip()
  \<close>
\<close>

definition strip_fences :: "string \<Rightarrow> string" where
  "strip_fences t0 =
     (let t1 = (if prefix ''```json'' t0
                then strip_py (replace_py ''```json'' '''' 1 t0) else t0)
      in if suffix ''```'' t1 then strip_py (take (length t1 - 3) t1) else t1)"

text \<open>
  \<^verbatim>\<open>
  gemini_response_text = gemini_response_text.replace(",]", "]").replace(",}", "}").strip()
  \<close>
\<close>

definition comma_cleanup :: "string \<Rightarrow> string" where
  "comma_cleanup t =
     strip_py (replace_py '',}'' ''}'' (- 1) (replace_py '',]'' '']'' (- 1) t))"

definition clean_text :: "string \<Rightarrow> string" where
  "clean_text t = comma_cleanup (strip_fences t)"

text \<open>\<^verbatim>\<open>pat in s\<close>: \<open>pat\<close> occurs in \<open>s\<close> as a contiguous piece.\<close>

fun contains :: "string \<Rightarrow> string \<Rightarrow> bool" where
  "contains pat [] = (pat = [])"
| "contains pat (c # cs) = (prefix pat (c # cs) \<or> contains pat cs)"

section \<open>Parsing the cleaned text (lines 114 to 127)\<close>

text \<open>
  \<^verbatim>\<open>json.loads\<close> is library code. It is a parameter \<open>loads\<close> of the model: it returns
  the parsed value or the exception it raises. Only \<^verbatim>\<open>json.JSONDecodeError\<close> is
  caught here, with the empty list as the fallback; a list is taken as it is, a single
  object is wrapped, any other value gives the empty list.
\<close>

definition parse_details :: "(string \<Rightarrow> exn + json) \<Rightarrow> string \<Rightarrow> exn + json list" where
  "parse_details loads t =
     (case loads t of
        Inr (JArr xs) \<Rightarrow> Inr xs
      | Inr (JObj kvs) \<Rightarrow> Inr [JObj kvs]
      | Inr _ \<Rightarrow> Inr []
      | Inl e \<Rightarrow> if e = JSONDecodeError then Inr [] else Inl e)"

section \<open>The handler \<^verbatim>\<open>process_image\<close>\<close>

text \<open>
  An uploaded file, and \<^verbatim>\<open>request.files\<close> as the list of the form's file fields by
  name; \<^verbatim>\<open>request.files['image']\<close> is the first file of that name.
\<close>

record upload =
  filename :: string
  mimetype :: string
  content :: string

type_synonym files = "(string \<times> upload) list"

text \<open>
  The JSON body of a response: \<^verbatim>\<open>{'error': msg}\<close>, or
  \<^verbatim>\<open>{'extracted_text': text, 'medicine_details': list}\<close>; a response is a body and a
  status code.
\<close>

datatype body = Error string | Details string "json list"

type_synonym response = "body \<times> nat"

text \<open>
  The external model is a parameter \<open>gen\<close>: given the MIME type and the bytes of the
  image (the prompt is a constant), it returns the text of its reply,
  \<^verbatim>\<open>response.text\<close>, or the exception that the call raised. The handler's result is
  its response together with the list of calls it made to the external model.
\<close>

definition internal_error :: response where
  "internal_error =
     (Error ''An internal server error occurred during image processing.'', 500)"

definition process_image ::
  "(string \<Rightarrow> string \<Rightarrow> exn + string) \<Rightarrow> (string \<Rightarrow> exn + json) \<Rightarrow> files
     \<Rightarrow> response \<times> (string \<times> string) list" where
  "process_image gen loads fs =
     (case map_of fs ''image'' of
        None \<Rightarrow> ((Error ''No image file provided'', 400), [])
      | Some f \<Rightarrow>
          if filename f = [] then ((Error ''No selected image file'', 400), [])
          else
            (let call = (mimetype f, content f) in
             case gen (mimetype f) (content f) of
               Inl e \<Rightarrow> (internal_error, [call])
             | Inr reply \<Rightarrow>
                 (let text = clean_text (strip_py reply) in
                  case parse_details loads text of
                    Inl e \<Rightarrow> (internal_error, [call])
                  | Inr medicine_details \<Rightarrow>
                      (case norm_loop medicine_details of
                         (ys, Some e) \<Rightarrow> (internal_error, [call])
                       | (ys, None) \<Rightarrow> ((Details text ys, 200), [call])))))"

section \<open>Notions used in the statements\<close>

text \<open>
  Two records agree outside the five keys the loop assigns: both are objects, and every
  other key has the same value in both, or is absent from both.
\<close>

definition same_other_keys :: "json \<Rightarrow> json \<Rightarrow> bool" where
  "same_other_keys x y \<longleftrightarrow>
     (\<exists>kvs kvs'. x = JObj kvs \<and> y = JObj kvs' \<and>
        (\<forall>k. k \<notin> {''name'', ''quantity'', ''duration'', ''meal'', ''frequency''}
             \<longrightarrow> map_of kvs' k = map_of kvs k))"

text \<open>
  The value under key \<open>k\<close> after the loop body has run on \<open>x\<close>; \<open>None\<close> when the body
  raised or the key is absent.
\<close>

definition field_after :: "string \<Rightarrow> json \<Rightarrow> json option" where
  "field_after k x =
     (case normalize_item x of Inr (JObj kvs) \<Rightarrow> map_of kvs k | _ \<Rightarrow> None)"

section \<open>Properties of the normalization loop\<close>

subsection \<open>Dictionary lemmas\<close>

lemma map_of_dict_set: "map_of (dict_set k v kvs) = (map_of kvs)(k \<mapsto> v)"
  by (induction kvs) (auto simp: fun_eq_iff)

lemma dict_set_same: "map_of kvs k = Some v \<Longrightarrow> dict_set k v kvs = kvs"
  by (induction kvs) (auto split: if_splits)

lemma map_of_set_default:
  "map_of (set_default k d kvs) = (map_of kvs)(k \<mapsto> py_or (dict_get kvs k d) d)"
  by (simp add: set_default_def map_of_dict_set)

lemma py_or_idem: "py_or (py_or x d) d = py_or x d"
  by (simp add: py_or_def)

lemma set_default_same:
  "map_of kvs k = Some v \<Longrightarrow> py_or v d = v \<Longrightarrow> set_default k d kvs = kvs"
  by (simp add: set_default_def dict_get_def dict_set_same)

lemma coerce_duration_JInt: "coerce_duration (JInt n) = Inr n"
  by (simp add: coerce_duration_def)

subsection \<open>A normalized record is a fixed point of the loop body\<close>

lemma normalize_item_fixed:
  assumes "normalize_item x = Inr y"
  shows "normalize_item y = Inr y"
proof (cases x)
  case (JObj kvs)
  with assms obtain n where
    y: "y = JObj (set_default ''name'' (JStr '''')
                    (set_default ''quantity'' (JStr '''')
                    (set_default ''frequency'' (JStr '''')
                    (set_default ''meal'' (JStr ''anytime'')
                    (dict_set ''duration'' (JInt n) kvs)))))"
    by (auto split: sum.splits)
  define k5 where "k5 = (set_default ''name'' (JStr '''')
                    (set_default ''quantity'' (JStr '''')
                    (set_default ''frequency'' (JStr '''')
                    (set_default ''meal'' (JStr ''anytime'')
                    (dict_set ''duration'' (JInt n) kvs)))))"
  have d: "map_of k5 ''duration'' = Some (JInt n)"
    by (simp add: k5_def map_of_set_default map_of_dict_set)
  have m: "\<exists>v. map_of k5 ''meal'' = Some v \<and> py_or v (JStr ''anytime'') = v"
    by (simp add: k5_def map_of_set_default map_of_dict_set py_or_idem)
  have f: "\<exists>v. map_of k5 ''frequency'' = Some v \<and> py_or v (JStr '''') = v"
    by (simp add: k5_def map_of_set_default map_of_dict_set py_or_idem)
  have q: "\<exists>v. map_of k5 ''quantity'' = Some v \<and> py_or v (JStr '''') = v"
    by (simp add: k5_def map_of_set_default map_of_dict_set py_or_idem)
  have nm: "\<exists>v. map_of k5 ''name'' = Some v \<and> py_or v (JStr '''') = v"
    by (simp add: k5_def map_of_set_default map_of_dict_set py_or_idem)
  have "dict_get k5 ''duration'' (JInt (- 1)) = JInt n"
    using d by (simp add: dict_get_def)
  moreover have "dict_set ''duration'' (JInt n) k5 = k5"
    using d by (rule dict_set_same)
  moreover have "set_default ''meal'' (JStr ''anytime'') k5 = k5"
    using m set_default_same by blast
  moreover have "set_default ''frequency'' (JStr '''') k5 = k5"
    using f set_default_same by blast
  moreover have "set_default ''quantity'' (JStr '''') k5 = k5"
    using q set_default_same by blast
  moreover have "set_default ''name'' (JStr '''') k5 = k5"
    using nm set_default_same by blast
  ultimately have "normalize_item (JObj k5) = Inr (JObj k5)"
    by (simp add: coerce_duration_JInt)
  then show ?thesis using y k5_def by simp
qed (use assms in auto)

text \<open>
  Claim C3. Normalization is idempotent: when the loop has run to its end on a list,
  giving the normalized list \<open>ys\<close>, running the loop again on \<open>ys\<close> runs to its end
  and leaves \<open>ys\<close> as it is. The defaults \<open>-1\<close>, \<open>"anytime"\<close> and \<open>""\<close> are fixed points
  of the coercions.
\<close>

theorem normalization_idempotent:
  "norm_loop xs = (ys, None) \<Longrightarrow> norm_loop ys = (ys, None)"
proof (induction xs arbitrary: ys)
  case Nil
  then show ?case by simp
next
  case (Cons x xs)
  then show ?case
    by (auto split: sum.splits prod.splits dest: normalize_item_fixed)
qed

theorem normalization_idempotent_witness:
  "norm_loop [JObj [(''name'', JStr ''X'')], JObj [(''meal'', JNull), (''duration'', JStr ''7'')]]
     = ([JObj [(''name'', JStr ''X''), (''duration'', JInt (- 1)), (''meal'', JStr ''anytime''),
               (''frequency'', JStr ''''), (''quantity'', JStr '''')],
         JObj [(''meal'', JStr ''anytime''), (''duration'', JInt 7), (''frequency'', JStr ''''),
               (''quantity'', JStr ''''), (''name'', JStr '''')]], None)
   \<and> norm_loop
        [JObj [(''name'', JStr ''X''), (''duration'', JInt (- 1)), (''meal'', JStr ''anytime''),
               (''frequency'', JStr ''''), (''quantity'', JStr '''')],
         JObj [(''meal'', JStr ''anytime''), (''duration'', JInt 7), (''frequency'', JStr ''''),
               (''quantity'', JStr ''''), (''name'', JStr '''')]]
     = ([JObj [(''name'', JStr ''X''), (''duration'', JInt (- 1)), (''meal'', JStr ''anytime''),
               (''frequency'', JStr ''''), (''quantity'', JStr '''')],
         JObj [(''meal'', JStr ''anytime''), (''duration'', JInt 7), (''frequency'', JStr ''''),
               (''quantity'', JStr ''''), (''name'', JStr '''')]], None)"
proof -
  have h: "norm_loop [JObj [(''name'', JStr ''X'')],
                      JObj [(''meal'', JNull), (''duration'', JStr ''7'')]]
     = ([JObj [(''name'', JStr ''X''), (''duration'', JInt (- 1)), (''meal'', JStr ''anytime''),
               (''frequency'', JStr ''''), (''quantity'', JStr '''')],
         JObj [(''meal'', JStr ''anytime''), (''duration'', JInt 7), (''frequency'', JStr ''''),
               (''quantity'', JStr ''''), (''name'', JStr '''')]], None)"
    by (simp add: coerce_duration_def set_default_def dict_get_def py_or_def int_of_str_def
        int_isspace_def is_digit_def digit_val_def)
  show ?thesis using h normalization_idempotent[OF h] by simp
qed

subsection \<open>The keys the loop does not assign\<close>

lemma normalize_item_other_keys:
  assumes "normalize_item (JObj kvs) = Inr y"
  shows "\<exists>kvs'. y = JObj kvs' \<and>
           (\<forall>k. k \<notin> {''name'', ''quantity'', ''duration'', ''meal'', ''frequency''}
                \<longrightarrow> map_of kvs' k = map_of kvs k)"
  using assms
  by (auto split: sum.splits simp: map_of_set_default map_of_dict_set)

lemma norm_loop_rel:
  "\<forall>x \<in> set xs. \<exists>kvs. x = JObj kvs \<Longrightarrow>
   list_all2 same_other_keys xs (fst (norm_loop xs))"
proof (induction xs)
  case Nil
  then show ?case by simp
next
  case (Cons x xs)
  then obtain kvs where x: "x = JObj kvs" by auto
  have unchanged: "list_all2 same_other_keys (x # xs) (x # xs)"
    using Cons.prems by (fastforce simp: list_all2_same same_other_keys_def)
  show ?case
  proof (cases "normalize_item x")
    case (Inl e)
    then show ?thesis using unchanged by simp
  next
    case (Inr y)
    then have "same_other_keys x y"
      using normalize_item_other_keys[of kvs y] x by (auto simp: same_other_keys_def)
    then show ?thesis using Inr Cons by (auto split: prod.splits)
  qed
qed

text \<open>
  Claim C8. On a list of JSON objects the loop keeps the length of the list and the
  order of its elements: the element at each index is an object that comes from the
  object at the same index, and every key other than \<open>name\<close>, \<open>quantity\<close>,
  \<open>duration\<close>, \<open>meal\<close> and \<open>frequency\<close> has the value it had (or is still absent).
  This holds for the contents of the list whether the loop ran to its end or was left
  by an exception.
\<close>

theorem other_keys_untouched:
  assumes "\<forall>x \<in> set xs. \<exists>kvs. x = JObj kvs"
  shows "length (fst (norm_loop xs)) = length xs \<and>
         (\<forall>i < length xs. same_other_keys (xs ! i) (fst (norm_loop xs) ! i))"
  using norm_loop_rel[OF assms] by (simp add: list_all2_conv_all_nth)

theorem other_keys_untouched_witness:
  "length (fst (norm_loop [JObj [(''note'', JStr ''n''), (''name'', JNull)],
                           JObj [(''duration'', JFloat PosInf), (''id'', JInt 3)]])) = 2
   \<and> same_other_keys (JObj [(''note'', JStr ''n''), (''name'', JNull)])
        (fst (norm_loop [JObj [(''note'', JStr ''n''), (''name'', JNull)],
                         JObj [(''duration'', JFloat PosInf), (''id'', JInt 3)]]) ! 0)
   \<and> same_other_keys (JObj [(''duration'', JFloat PosInf), (''id'', JInt 3)])
        (fst (norm_loop [JObj [(''note'', JStr ''n''), (''name'', JNull)],
                         JObj [(''duration'', JFloat PosInf), (''id'', JInt 3)]]) ! 1)"
proof -
  let ?xs = "[JObj [(''note'', JStr ''n''), (''name'', JNull)],
              JObj [(''duration'', JFloat PosInf), (''id'', JInt 3)]]"
  have h: "\<forall>x \<in> set ?xs. \<exists>kvs. x = JObj kvs" by simp
  have "length (fst (norm_loop ?xs)) = length ?xs \<and>
         (\<forall>i < length ?xs. same_other_keys (?xs ! i) (fst (norm_loop ?xs) ! i))"
    by (rule other_keys_untouched[OF h])
  then have l: "length (fst (norm_loop ?xs)) = length ?xs"
    and a: "\<And>i. i < length ?xs \<Longrightarrow> same_other_keys (?xs ! i) (fst (norm_loop ?xs) ! i)"
    by blast+
  have "same_other_keys (?xs ! 0) (fst (norm_loop ?xs) ! 0)" by (rule a) simp
  moreover have "same_other_keys (?xs ! 1) (fst (norm_loop ?xs) ! 1)" by (rule a) simp
  ultimately show ?thesis using l by simp
qed

subsection \<open>What \<^verbatim>\<open>int()\<close> rejects\<close>

lemma dot_int_body: "int_body pd acc cs = Some n \<Longrightarrow> CHR ''.'' \<notin> set cs"
  by (induction pd acc cs rule: int_body.induct) (auto simp: is_digit_def split: if_splits)

lemma in_dropWhile: "c \<in> set s \<Longrightarrow> \<not> P c \<Longrightarrow> c \<in> set (dropWhile P s)"
  by (induction s) auto

lemma dot_int_of_str: "CHR ''.'' \<in> set s \<Longrightarrow> int_of_str s = None"
proof -
  assume d: "CHR ''.'' \<in> set s"
  define t where "t = rev (dropWhile int_isspace (rev (dropWhile int_isspace s)))"
  have ns: "\<not> int_isspace CHR ''.''" by (simp add: int_isspace_def)
  have "CHR ''.'' \<in> set (dropWhile int_isspace s)" using d ns by (rule in_dropWhile)
  then have "CHR ''.'' \<in> set (rev (dropWhile int_isspace s))" by simp
  then have "CHR ''.'' \<in> set (dropWhile int_isspace (rev (dropWhile int_isspace s)))"
    using ns by (rule in_dropWhile)
  then have t: "CHR ''.'' \<in> set t" by (simp add: t_def)
  have eq: "int_of_str s =
     (case t of
           [] \<Rightarrow> None
         | c # cs \<Rightarrow>
             if c = CHR ''-'' then map_option (\<lambda>n. - int n) (int_body False 0 cs)
             else if c = CHR ''+'' then map_option int (int_body False 0 cs)
             else map_option int (int_body False 0 (c # cs)))"
    by (simp add: int_of_str_def t_def Let_def)
  show ?thesis
  proof (cases t)
    case Nil
    then show ?thesis using t by simp
  next
    case (Cons c cs)
    have a: "int_body False 0 (c # cs) = None"
      using dot_int_body[of False 0 "c # cs"] t Cons
      by (cases "int_body False 0 (c # cs)") auto
    have b: "c = CHR ''-'' \<or> c = CHR ''+'' \<Longrightarrow> int_body False 0 cs = None"
      using dot_int_body[of False 0 cs] t Cons by (cases "int_body False 0 cs") auto
    show ?thesis unfolding eq Cons using a b by (auto simp del: int_body.simps)
  qed
qed

lemma duration_after:
  assumes "coerce_duration (dict_get kvs ''duration'' (JInt (- 1))) = Inr n"
  shows "field_after ''duration'' (JObj kvs) = Some (JInt n)"
  using assms by (simp add: field_after_def map_of_set_default map_of_dict_set)

lemma field_after_duration:
  "field_after ''duration'' (JObj kvs) =
     (case int_py (dict_get kvs ''duration'' (JInt (- 1))) of
        Inr n \<Rightarrow> Some (JInt n)
      | Inl e \<Rightarrow> if e = ValueError \<or> e = TypeError then Some (JInt (- 1)) else None)"
  by (simp add: field_after_def coerce_duration_def map_of_set_default map_of_dict_set
      split: sum.splits)

lemma int_of_str_12: "int_of_str ''12'' = Some 12"
  by (simp add: int_of_str_def int_isspace_def is_digit_def digit_val_def)

lemma int_of_str_neg: "int_of_str '' -1_000 '' = Some (- 1000)"
  by (simp add: int_of_str_def int_isspace_def is_digit_def digit_val_def)

lemma int_of_str_abc: "int_of_str ''abc'' = None"
  by (simp add: int_of_str_def int_isspace_def is_digit_def digit_val_def)

lemma int_of_str_empty: "int_of_str '''' = None"
  by (simp add: int_of_str_def)

text \<open>
  Claim C10. The duration is coerced with \<^verbatim>\<open>int()\<close>, and the coercion accepts
  exactly what \<^verbatim>\<open>int()\<close> accepts. For a record whose \<open>duration\<close> is \<open>v\<close>: when
  \<^verbatim>\<open>int(v)\<close> returns \<open>n\<close>, \<open>n\<close> is stored; when it raises \<^verbatim>\<open>ValueError\<close> or
  \<^verbatim>\<open>TypeError\<close>, the default \<open>-1\<close> is stored; any other exception leaves the loop
  body and nothing is stored. So an integer is kept, an integer numeral in a string is
  read (\<open>"12"\<close> gives \<open>12\<close>), a finite float is truncated towards zero (the double
  written \<open>7.9\<close> gives \<open>7\<close>, its negative \<open>-7\<close>), a boolean gives \<open>0\<close> or \<open>1\<close>; a
  string with a decimal point, a string that is not a numeral, \<^verbatim>\<open>None\<close>, \<^verbatim>\<open>nan\<close>, a
  list and an object give \<open>-1\<close>. An infinite float is numeric but \<^verbatim>\<open>int()\<close> raises
  \<^verbatim>\<open>OverflowError\<close> on it, which this \<^verbatim>\<open>try\<close> does not catch.
\<close>

theorem duration_coercion:
  assumes "map_of kvs ''duration'' = Some v"
  shows "field_after ''duration'' (JObj kvs) =
           (case int_py v of
              Inr n \<Rightarrow> Some (JInt n)
            | Inl e \<Rightarrow> if e = ValueError \<or> e = TypeError then Some (JInt (- 1)) else None)
    \<and> (\<forall>n. v = JInt n \<longrightarrow> field_after ''duration'' (JObj kvs) = Some (JInt n))
    \<and> (v = JStr ''12'' \<longrightarrow> field_after ''duration'' (JObj kvs) = Some (JInt 12))
    \<and> (v = JStr '' -1_000 '' \<longrightarrow> field_after ''duration'' (JObj kvs) = Some (JInt (- 1000)))
    \<and> (\<forall>q. v = JFloat (Finite q) \<longrightarrow>
           field_after ''duration'' (JObj kvs)
             = Some (JInt (if 0 \<le> q then \<lfloor>q\<rfloor> else \<lceil>q\<rceil>)))
    \<and> (v = JFloat (Finite (4447304632028365 / 562949953421312)) \<longrightarrow>
           field_after ''duration'' (JObj kvs) = Some (JInt 7))
    \<and> (v = JFloat (Finite (- 4447304632028365 / 562949953421312)) \<longrightarrow>
           field_after ''duration'' (JObj kvs) = Some (JInt (- 7)))
    \<and> (\<forall>b. v = JBool b \<longrightarrow>
           field_after ''duration'' (JObj kvs) = Some (JInt (if b then 1 else 0)))
    \<and> (\<forall>s. v = JStr s \<and> CHR ''.'' \<in> set s \<longrightarrow>
           field_after ''duration'' (JObj kvs) = Some (JInt (- 1)))
    \<and> (v = JStr ''abc'' \<longrightarrow> field_after ''duration'' (JObj kvs) = Some (JInt (- 1)))
    \<and> (v = JStr '''' \<longrightarrow> field_after ''duration'' (JObj kvs) = Some (JInt (- 1)))
    \<and> (v = JNull \<longrightarrow> field_after ''duration'' (JObj kvs) = Some (JInt (- 1)))
    \<and> (v = JFloat NaN \<longrightarrow> field_after ''duration'' (JObj kvs) = Some (JInt (- 1)))
    \<and> (\<forall>xs. v = JArr xs \<longrightarrow> field_after ''duration'' (JObj kvs) = Some (JInt (- 1)))
    \<and> (\<forall>m. v = JObj m \<longrightarrow> field_after ''duration'' (JObj kvs) = Some (JInt (- 1)))
    \<and> (v = JFloat PosInf \<or> v = JFloat NegInf \<longrightarrow>
           normalize_item (JObj kvs) = Inl OverflowError
           \<and> field_after ''duration'' (JObj kvs) = None)"
proof -
  have g: "dict_get kvs ''duration'' (JInt (- 1)) = v"
    using assms by (simp add: dict_get_def)
  have f7: "\<lfloor>4447304632028365 / 562949953421312 :: rat\<rfloor> = 7"
    by (simp add: floor_eq_iff)
  have c7: "\<lceil>- 4447304632028365 / 562949953421312 :: rat\<rceil> = - 7"
    by (simp add: ceiling_eq_iff)
  have eq: "field_after ''duration'' (JObj kvs) =
           (case int_py v of
              Inr n \<Rightarrow> Some (JInt n)
            | Inl e \<Rightarrow> if e = ValueError \<or> e = TypeError then Some (JInt (- 1)) else None)"
    using field_after_duration[of kvs] g by simp
  have ov: "v = JFloat PosInf \<or> v = JFloat NegInf \<Longrightarrow>
              normalize_item (JObj kvs) = Inl OverflowError"
    using g by (auto simp: coerce_duration_def)
  show ?thesis
    unfolding eq using f7 c7 ov
    by (auto simp: dot_int_of_str int_of_str_12 int_of_str_neg int_of_str_abc int_of_str_empty)
qed

theorem duration_coercion_witness:
  "map_of [(''name'', JStr ''X''), (''duration'', JStr ''7.9'')] ''duration'' = Some (JStr ''7.9'')
   \<and> field_after ''duration'' (JObj [(''name'', JStr ''X''), (''duration'', JStr ''7.9'')])
       = Some (JInt (- 1))
   \<and> map_of [(''duration'', JFloat (Finite (4447304632028365 / 562949953421312)))] ''duration''
       = Some (JFloat (Finite (4447304632028365 / 562949953421312)))
   \<and> field_after ''duration''
         (JObj [(''duration'', JFloat (Finite (4447304632028365 / 562949953421312)))])
       = Some (JInt 7)
   \<and> map_of [(''duration'', JBool True)] ''duration'' = Some (JBool True)
   \<and> field_after ''duration'' (JObj [(''duration'', JBool True)]) = Some (JInt 1)
   \<and> map_of [(''duration'', JInt 42)] ''duration'' = Some (JInt 42)
   \<and> field_after ''duration'' (JObj [(''duration'', JInt 42)]) = Some (JInt 42)
   \<and> map_of [(''duration'', JStr ''12'')] ''duration'' = Some (JStr ''12'')
   \<and> field_after ''duration'' (JObj [(''duration'', JStr ''12'')]) = Some (JInt 12)
   \<and> map_of [(''duration'', JFloat PosInf)] ''duration'' = Some (JFloat PosInf)
   \<and> field_after ''duration'' (JObj [(''duration'', JFloat PosInf)]) = None"
proof -
  have h1: "map_of [(''name'', JStr ''X''), (''duration'', JStr ''7.9'')] ''duration''
              = Some (JStr ''7.9'')" by simp
  have h2: "map_of [(''duration'', JFloat (Finite (4447304632028365 / 562949953421312)))]
              ''duration'' = Some (JFloat (Finite (4447304632028365 / 562949953421312)))"
    by simp
  have h3: "map_of [(''duration'', JBool True)] ''duration'' = Some (JBool True)" by simp
  have h4: "map_of [(''duration'', JInt 42)] ''duration'' = Some (JInt 42)" by simp
  have h5: "map_of [(''duration'', JStr ''12'')] ''duration'' = Some (JStr ''12'')" by simp
  have h6: "map_of [(''duration'', JFloat PosInf)] ''duration'' = Some (JFloat PosInf)"
    by simp
  have f7: "\<lfloor>4447304632028365 / 562949953421312 :: rat\<rfloor> = 7"
    by (simp add: floor_eq_iff)
  have d79: "int_of_str ''7.9'' = None" by (rule dot_int_of_str) simp
  have a: "field_after ''duration''
              (JObj [(''name'', JStr ''X''), (''duration'', JStr ''7.9'')]) = Some (JInt (- 1))"
    using duration_coercion[OF h1, THEN conjunct1] by (simp add: d79)
  have b: "field_after ''duration''
             (JObj [(''duration'', JFloat (Finite (4447304632028365 / 562949953421312)))])
           = Some (JInt 7)"
    using duration_coercion[OF h2, THEN conjunct1] by (simp add: f7)
  have c: "field_after ''duration'' (JObj [(''duration'', JBool True)]) = Some (JInt 1)"
    using duration_coercion[OF h3, THEN conjunct1] by simp
  have d: "field_after ''duration'' (JObj [(''duration'', JInt 42)]) = Some (JInt 42)"
    using duration_coercion[OF h4, THEN conjunct1] by simp
  have e: "field_after ''duration'' (JObj [(''duration'', JStr ''12'')]) = Some (JInt 12)"
    using duration_coercion[OF h5, THEN conjunct1] by (simp add: int_of_str_12)
  have f: "field_after ''duration'' (JObj [(''duration'', JFloat PosInf)]) = None"
    using duration_coercion[OF h6, THEN conjunct1] by simp
  show ?thesis
    by (intro conjI h1 h2 h3 h4 h5 h6 a b c d e f)
qed

section \<open>Properties of the text cleanup\<close>

subsection \<open>Replacing a two-character pattern by its second character\<close>

lemma contains_sublist: "contains pat s = sublist pat s"
  by (induction s) (auto simp: sublist_Cons_right)

lemma prefix1: "prefix [b] cs \<longleftrightarrow> (\<exists>t. cs = b # t)"
  by (cases cs) auto

lemma replace2_match:
  "count \<noteq> 0 \<Longrightarrow>
   replace_py [a, b] new count (a # b # t) = new @ replace_py [a, b] new (count - 1) t"
  by simp

lemma replace2_skip:
  "\<not> (c = a \<and> (\<exists>t. cs = b # t)) \<Longrightarrow>
   replace_py [a, b] new count (c # cs) = c # replace_py [a, b] new count cs"
  by (cases cs) auto

lemma replace2_cases:
  assumes "count < 0"
  obtains (nil) "s = []" "replace_py [a, b] [b] count s = []"
  | (match) t where "s = a # b # t"
      "replace_py [a, b] [b] count s = b # replace_py [a, b] [b] (count - 1) t"
  | (skip) c cs where "s = c # cs" "\<not> (c = a \<and> (\<exists>t. cs = b # t))"
      "replace_py [a, b] [b] count s = c # replace_py [a, b] [b] count cs"
proof (cases s)
  case Nil
  then show ?thesis using nil by simp
next
  case (Cons c cs)
  show ?thesis
  proof (cases "c = a \<and> (\<exists>t. cs = b # t)")
    case True
    then obtain t where "s = a # b # t" using Cons by auto
    then show ?thesis using match[of t] replace2_match[of count a b "[b]" t] assms by simp
  next
    case False
    then show ?thesis using skip[of c cs] Cons replace2_skip[of c a cs b "[b]" count] by blast
  qed
qed

lemma replace2_hd:
  assumes "count < 0" "a \<noteq> b" "replace_py [a, b] [b] count s = x # r"
  shows "(x = b \<and> (\<exists>t. s = a # b # t)) \<or>
         (\<exists>t. s = x # t \<and> \<not> (x = a \<and> (\<exists>t'. t = b # t')) \<and> r = replace_py [a, b] [b] count t)"
  using assms(1)
proof (cases rule: replace2_cases[where count=count and s=s and a=a and b=b])
  case nil
  then show ?thesis using assms by simp
next
  case (match t)
  then show ?thesis using assms by simp
next
  case (skip c cs)
  then show ?thesis using assms by simp
qed

lemma replace2_no_new:
  assumes "count < 0" "a \<noteq> b" "\<not> contains [a, a, b] s"
  shows "\<not> contains [a, b] (replace_py [a, b] [b] count s)"
  using assms
proof (induction s arbitrary: count rule: length_induct)
  case (1 s)
  from "1.prems"(1) show ?case
  proof (cases rule: replace2_cases[where count=count and s=s and a=a and b=b])
    case nil
    then show ?thesis by simp
  next
    case (match t)
    have "\<not> contains [a, a, b] t" using "1.prems" match by auto
    then have "\<not> contains [a, b] (replace_py [a, b] [b] (count - 1) t)"
      using "1.IH" "1.prems" match by simp
    then show ?thesis using match "1.prems" by simp
  next
    case (skip c cs)
    have "\<not> contains [a, a, b] cs" using "1.prems" skip by auto
    then have ih: "\<not> contains [a, b] (replace_py [a, b] [b] count cs)"
      using "1.IH" "1.prems" skip by simp
    have "\<not> prefix [a, b] (c # replace_py [a, b] [b] count cs)"
    proof
      assume "prefix [a, b] (c # replace_py [a, b] [b] count cs)"
      then obtain r where r: "c = a" "replace_py [a, b] [b] count cs = b # r"
        by (auto simp: prefix1)
      from replace2_hd[OF "1.prems"(1,2) r(2)]
      have "(\<exists>t. cs = a # b # t) \<or> (\<exists>t. cs = b # t)" by auto
      then show False using skip r(1) "1.prems"(3) by auto
    qed
    then show ?thesis using ih skip by simp
  qed
qed

lemma replace2_other:
  assumes "count < 0" "a \<noteq> b" "d \<noteq> b" "\<not> contains [a, d] s"
  shows "\<not> contains [a, d] (replace_py [a, b] [b] count s)"
  using assms
proof (induction s arbitrary: count rule: length_induct)
  case (1 s)
  from "1.prems"(1) show ?case
  proof (cases rule: replace2_cases[where count=count and s=s and a=a and b=b])
    case nil
    then show ?thesis by simp
  next
    case (match t)
    have "\<not> contains [a, d] t" using "1.prems" match by auto
    then have "\<not> contains [a, d] (replace_py [a, b] [b] (count - 1) t)"
      using "1.IH" "1.prems" match by simp
    then show ?thesis using match "1.prems" by simp
  next
    case (skip c cs)
    have "\<not> contains [a, d] cs" using "1.prems" skip by auto
    then have ih: "\<not> contains [a, d] (replace_py [a, b] [b] count cs)"
      using "1.IH" "1.prems" skip by simp
    have "\<not> prefix [a, d] (c # replace_py [a, b] [b] count cs)"
    proof
      assume "prefix [a, d] (c # replace_py [a, b] [b] count cs)"
      then obtain r where r: "c = a" "replace_py [a, b] [b] count cs = d # r"
        by (auto simp: prefix1)
      from replace2_hd[OF "1.prems"(1,2) r(2)]
      have "\<exists>t. cs = d # t" using "1.prems"(3) by auto
      then show False using skip r(1) "1.prems"(4) by auto
    qed
    then show ?thesis using ih skip by simp
  qed
qed

lemma replace2_hd2:
  assumes "count < 0" "a \<noteq> b" "y \<noteq> b" "z \<noteq> b"
    and "replace_py [a, b] [b] count s = y # z # r"
  shows "\<exists>t. s = y # z # t"
proof -
  from replace2_hd[OF assms(1,2,5)] assms(3)
  obtain t where t: "s = y # t" "z # r = replace_py [a, b] [b] count t" by auto
  from replace2_hd[OF assms(1,2) t(2)[symmetric]] assms(4)
  obtain t' where "t = z # t'" by auto
  then show ?thesis using t(1) by simp
qed

lemma replace2_other3:
  assumes "count < 0" "a \<noteq> b" "y \<noteq> b" "z \<noteq> b" "\<not> contains [x, y, z] s"
  shows "\<not> contains [x, y, z] (replace_py [a, b] [b] count s)"
  using assms
proof (induction s arbitrary: count rule: length_induct)
  case (1 s)
  from "1.prems"(1) show ?case
  proof (cases rule: replace2_cases[where count=count and s=s and a=a and b=b])
    case nil
    then show ?thesis by simp
  next
    case (match t)
    have "\<not> contains [x, y, z] t" using "1.prems" match by auto
    then have ih: "\<not> contains [x, y, z] (replace_py [a, b] [b] (count - 1) t)"
      using "1.IH" "1.prems" match by simp
    have "\<not> prefix [x, y, z] (b # replace_py [a, b] [b] (count - 1) t)"
    proof
      assume "prefix [x, y, z] (b # replace_py [a, b] [b] (count - 1) t)"
      then obtain r where r: "x = b" "replace_py [a, b] [b] (count - 1) t = y # z # r"
        by (auto simp: prefix_def)
      have "count - 1 < 0" using "1.prems"(1) by simp
      from replace2_hd2[OF this "1.prems"(2,3,4) r(2)]
      obtain t' where "t = y # z # t'" by auto
      then show False using match r(1) "1.prems"(5) by auto
    qed
    then show ?thesis using ih match by simp
  next
    case (skip c cs)
    have "\<not> contains [x, y, z] cs" using "1.prems" skip by auto
    then have ih: "\<not> contains [x, y, z] (replace_py [a, b] [b] count cs)"
      using "1.IH" "1.prems" skip by simp
    have "\<not> prefix [x, y, z] (c # replace_py [a, b] [b] count cs)"
    proof
      assume "prefix [x, y, z] (c # replace_py [a, b] [b] count cs)"
      then obtain r where r: "c = x" "replace_py [a, b] [b] count cs = y # z # r"
        by (auto simp: prefix_def)
      from replace2_hd2[OF "1.prems"(1,2,3,4) r(2)]
      obtain t' where "cs = y # z # t'" by auto
      then show False using skip r(1) "1.prems"(5) by auto
    qed
    then show ?thesis using ih skip by simp
  qed
qed

lemma strip_py_sublist: "sublist (strip_py s) s"
proof -
  have "sublist (strip_py s) (dropWhile py_isspace s)"
    unfolding strip_py_def by (simp add: sublist_rev_left)
  moreover have "sublist (dropWhile py_isspace s) s" by simp
  ultimately show ?thesis by (rule sublist_order.order_trans)
qed

lemma contains_strip: "contains pat (strip_py s) \<Longrightarrow> contains pat s"
  using strip_py_sublist[of s] by (auto simp: contains_sublist intro: sublist_order.order_trans)

text \<open>
  Claim C5, as the code has it. The cleanup replaces the occurrences of \<open>",]"\<close> by
  \<open>"]"\<close> and then those of \<open>",}"\<close> by \<open>"}"\<close>, each in one pass from left to right.
  When the text has no two commas directly before a closer (neither \<open>",,]"\<close> nor
  \<open>",,}"\<close> occurs in it), no comma stands directly before a \<open>"]"\<close> or a \<open>"}"\<close> in
  the cleaned text.
\<close>

theorem cleanup_no_comma_before_closer:
  assumes "\<not> contains '',,]'' t" "\<not> contains '',,}'' t"
  shows "\<not> contains '',]'' (comma_cleanup t) \<and> \<not> contains '',}'' (comma_cleanup t)"
proof -
  let ?u = "replace_py '',]'' '']'' (- 1) t"
  let ?w = "replace_py '',}'' ''}'' (- 1) ?u"
  have u1: "\<not> contains '',]'' ?u"
    using assms(1) replace2_no_new[of "- 1" "CHR '',''" "CHR '']''" t] by simp
  have u2: "\<not> contains '',,}'' ?u"
    using assms(2)
      replace2_other3[of "- 1" "CHR '',''" "CHR '']''" "CHR '',''" "CHR ''}''" "CHR '',''" t]
    by simp
  have w1: "\<not> contains '',]'' ?w"
    using u1 replace2_other[of "- 1" "CHR '',''" "CHR ''}''" "CHR '']''" ?u] by simp
  have w2: "\<not> contains '',}'' ?w"
    using u2 replace2_no_new[of "- 1" "CHR '',''" "CHR ''}''" ?u] by simp
  show ?thesis using w1 w2 contains_strip unfolding comma_cleanup_def by blast
qed

theorem cleanup_no_comma_before_closer_witness:
  "\<not> contains '',,]'' ''[{1:[2,3,]},]'' \<and> \<not> contains '',,}'' ''[{1:[2,3,]},]''
   \<and> \<not> contains '',]'' (comma_cleanup ''[{1:[2,3,]},]'')
   \<and> \<not> contains '',}'' (comma_cleanup ''[{1:[2,3,]},]'')"
proof -
  have h1: "\<not> contains '',,]'' ''[{1:[2,3,]},]''" by simp
  have h2: "\<not> contains '',,}'' ''[{1:[2,3,]},]''" by simp
  show ?thesis using h1 h2 cleanup_no_comma_before_closer[OF h1 h2] by blast
qed

text \<open>
  Claim C5, as the specification words it, fails: in \<open>"[1,,]"\<close> the pass removes one
  comma, and the text handed to the parser is \<open>"[1,]"\<close>, where a comma still stands
  directly before the closer.
\<close>

theorem cleanup_leaves_comma_counterexample:
  "comma_cleanup ''[1,,]'' = ''[1,]'' \<and> contains '',]'' (comma_cleanup ''[1,,]'')"
  by (simp add: comma_cleanup_def strip_py_def py_isspace_def)

subsection \<open>Every occurrence of the pattern is replaced\<close>





subsection \<open>Markdown fences\<close>











section \<open>Properties of the handler\<close>

text \<open>
  Claim C7. When the form has no file field \<open>image\<close>, the handler answers 400 with the
  body \<open>{"error": "No image file provided"}\<close>, and makes no call to the external
  model.
\<close>

theorem missing_image_field:
  "map_of fs ''image'' = None \<Longrightarrow>
   process_image gen loads fs = ((Error ''No image file provided'', 400), [])"
  by (simp add: process_image_def)

theorem missing_image_field_witness:
  "map_of [(''file'', \<lparr>filename = ''a.png'', mimetype = ''image/png'', content = ''x''\<rparr>)]
     ''image'' = None
   \<and> process_image (\<lambda>m d. Inr ''[]'') (\<lambda>t. Inr (JArr []))
        [(''file'', \<lparr>filename = ''a.png'', mimetype = ''image/png'', content = ''x''\<rparr>)]
       = ((Error ''No image file provided'', 400), [])"
  using missing_image_field[of
      "[(''file'', \<lparr>filename = ''a.png'', mimetype = ''image/png'', content = ''x''\<rparr>)]"
      "\<lambda>m d. Inr ''[]''" "\<lambda>t. Inr (JArr [])"]
  by simp

text \<open>
  Claim C6. When the cleaned text parses to a single JSON object, the parse step wraps it
  into a one-element list before the normalization loop, and the handler answers 200 with
  \<open>medicine_details\<close> holding exactly that one record, normalized.
\<close>

theorem single_object_wrapped:
  assumes "loads t = Inr (JObj kvs)"
  shows "parse_details loads t = Inr [JObj kvs]
     \<and> (\<forall>fs f gen reply y.
          map_of fs ''image'' = Some f \<and> filename f \<noteq> [] \<and>
          gen (mimetype f) (content f) = Inr reply \<and> clean_text (strip_py reply) = t \<and>
          normalize_item (JObj kvs) = Inr y
          \<longrightarrow> process_image gen loads fs = ((Details t [y], 200), [(mimetype f, content f)]))"
  using assms by (auto simp: process_image_def parse_details_def)

theorem single_object_wrapped_witness:
  \<open>parse_details
      (\<lambda>t. if t = ''{"name":"X"}'' then Inr (JObj [(''name'', JStr ''X'')])
           else Inl JSONDecodeError) ''{"name":"X"}''
     = Inr [JObj [(''name'', JStr ''X'')]]
   \<and> process_image (\<lambda>m d. Inr ''{"name":"X"}'')
        (\<lambda>t. if t = ''{"name":"X"}'' then Inr (JObj [(''name'', JStr ''X'')])
             else Inl JSONDecodeError)
        [(''image'', \<lparr>filename = ''rx.png'', mimetype = ''image/png'', content = ''x''\<rparr>)]
      = ((Details ''{"name":"X"}''
            [JObj [(''name'', JStr ''X''), (''duration'', JInt (- 1)), (''meal'', JStr ''anytime''),
                   (''frequency'', JStr ''''), (''quantity'', JStr '''')]], 200),
         [(''image/png'', ''x'')])\<close>
proof -
  let ?L = \<open>\<lambda>t. if t = ''{"name":"X"}'' then Inr (JObj [(''name'', JStr ''X'')])
           else Inl JSONDecodeError\<close>
  let ?t = \<open>''{"name":"X"}''\<close>
  have l: "?L ?t = Inr (JObj [(''name'', JStr ''X'')])" by simp
  have c: "clean_text (strip_py ?t) = ?t" by code_simp
  have n: "normalize_item (JObj [(''name'', JStr ''X'')])
     = Inr (JObj [(''name'', JStr ''X''), (''duration'', JInt (- 1)), (''meal'', JStr ''anytime''),
                   (''frequency'', JStr ''''), (''quantity'', JStr '''')])"
    by (simp add: coerce_duration_def set_default_def dict_get_def py_or_def)
  note w = single_object_wrapped[of ?L ?t "[(''name'', JStr ''X'')]", OF l]
  have a: "parse_details ?L ?t = Inr [JObj [(''name'', JStr ''X'')]]"
    using w by (rule conjunct1)
  have b: "process_image (\<lambda>m d. Inr ?t) ?L
        [(''image'', \<lparr>filename = ''rx.png'', mimetype = ''image/png'', content = ''x''\<rparr>)]
      = ((Details ?t
            [JObj [(''name'', JStr ''X''), (''duration'', JInt (- 1)), (''meal'', JStr ''anytime''),
                   (''frequency'', JStr ''''), (''quantity'', JStr '''')]], 200),
         [(''image/png'', ''x'')])"
    using w[THEN conjunct2, rule_format,
        of "[(''image'', \<lparr>filename = ''rx.png'', mimetype = ''image/png'', content = ''x''\<rparr>)]"
           "\<lparr>filename = ''rx.png'', mimetype = ''image/png'', content = ''x''\<rparr>"
           "\<lambda>m d. Inr ?t" ?t] c n
    by simp
  show ?thesis using a b by (intro conjI)
qed

text \<open>
  Claim C1 asks that after the loop each of \<open>name\<close>, \<open>quantity\<close>, \<open>meal\<close> and
  \<open>frequency\<close> is a string, a value of another type being replaced by the default. The
  loop body assigns \<open>item.get(k, d) or d\<close>, which replaces only a missing or falsy value:
  for the model reply \<open>[{"name": 5}]\<close> the record leaves the loop, and the handler, with
  the integer 5 as its name.
\<close>

theorem wrong_typed_name_kept:
  \<open>norm_loop [JObj [(''name'', JInt 5)]] =
     ([JObj [(''name'', JInt 5), (''duration'', JInt (- 1)), (''meal'', JStr ''anytime''),
             (''frequency'', JStr ''''), (''quantity'', JStr '''')]], None)
   \<and> process_image (\<lambda>m d. Inr ''[{"name": 5}]'')
        (\<lambda>t. if t = ''[{"name": 5}]'' then Inr (JArr [JObj [(''name'', JInt 5)]])
             else Inl JSONDecodeError)
        [(''image'', \<lparr>filename = ''rx.png'', mimetype = ''image/png'', content = ''x''\<rparr>)]
      = ((Details ''[{"name": 5}]''
            [JObj [(''name'', JInt 5), (''duration'', JInt (- 1)), (''meal'', JStr ''anytime''),
                   (''frequency'', JStr ''''), (''quantity'', JStr '''')]], 200),
         [(''image/png'', ''x'')])\<close>
proof -
  have c: \<open>clean_text (strip_py ''[{"name": 5}]'') = ''[{"name": 5}]''\<close>
    by code_simp
  have n: "norm_loop [JObj [(''name'', JInt 5)]] =
     ([JObj [(''name'', JInt 5), (''duration'', JInt (- 1)), (''meal'', JStr ''anytime''),
             (''frequency'', JStr ''''), (''quantity'', JStr '''')]], None)"
    by (simp add: coerce_duration_def set_default_def dict_get_def py_or_def)
  show ?thesis
    by (simp add: process_image_def c parse_details_def coerce_duration_def set_default_def
        dict_get_def py_or_def)
qed

text \<open>
  A reply the parser rejects is swallowed: the handler answers 200 with an empty list.
\<close>

lemma decode_error_gives_empty:
  assumes "map_of fs ''image'' = Some f" "filename f \<noteq> []"
    and "gen (mimetype f) (content f) = Inr reply"
    and "loads (clean_text (strip_py reply)) = Inl JSONDecodeError"
  shows "process_image gen loads fs =
           ((Details (clean_text (strip_py reply)) [], 200), [(mimetype f, content f)])"
  using assms by (simp add: process_image_def parse_details_def)

text \<open>
  Claim C2 asks that a reply of an unexpected shape, like a reply that is not JSON, gives
  200 with an empty list. For the model reply \<open>[1]\<close>, a JSON list whose element is not an
  object, the loop body calls \<open>item.get\<close> on the integer, the \<open>AttributeError\<close> reaches
  the outer handler, and the answer is 500.
\<close>

theorem list_of_non_objects_gives_500:
  "process_image (\<lambda>m d. Inr ''[1]'')
     (\<lambda>t. if t = ''[1]'' then Inr (JArr [JInt 1]) else Inl JSONDecodeError)
     [(''image'', \<lparr>filename = ''rx.png'', mimetype = ''image/png'', content = ''x''\<rparr>)]
   = ((Error ''An internal server error occurred during image processing.'', 500),
      [(''image/png'', ''x'')])"
  by (simp add: process_image_def parse_details_def internal_error_def clean_text_def
      strip_fences_def comma_cleanup_def strip_py_def py_isspace_def
      suffix_to_prefix Let_def)

end
